theory Spec2Isabelle
  imports Complex_Main
begin

section \<open>Data model (services/api)\<close>

text \<open>
  The status of a backtest job is the TypeScript union
  \<^verbatim>\<open>'pending' | 'running' | 'completed' | 'failed'\<close>.
\<close>

datatype job_status = Pending | Running | Completed | Failed

text \<open>
  The interface \<^verbatim>\<open>BacktestJob\<close>. A field declared with \<^verbatim>\<open>?\<close> is an option.
  The field \<^verbatim>\<open>id\<close> is called \<open>job_id\<close> here, since \<open>id\<close> is the identity function of HOL.
  \<^verbatim>\<open>strategy_params\<close> is a \<^verbatim>\<open>Record<string, unknown>\<close> that the component never looks
  into; it is kept as a list of key/value pairs.
\<close>

record BacktestJob =
  job_id :: int
  created_at :: string
  updated_at :: "string option"
  status :: job_status
  error_message :: "string option"
  strategy_name :: string
  strategy_params :: "(string \<times> string) list"
  symbol :: string
  interval :: string
  start_date :: "string option"
  end_date :: "string option"
  initial_capital :: real
  take_profit_pct :: "real option"
  stop_loss_pct :: "real option"
  backtest_run_id :: "int option"

text \<open>
  What can be thrown inside the \<^verbatim>\<open>try\<close> blocks: the request does not complete, the
  server answers with an error status (404), or the returned data is used as what it is not
  (the \<^verbatim>\<open>TypeError\<close> of JavaScript). A body that cannot be decoded is not among them:
  the client returns it as data, see \<open>jobs_value\<close> below.
\<close>

datatype fetch_error = NetworkFailure | TypeError | NotFound

text \<open>An awaited request either throws (\<open>Inl\<close>) or returns its data (\<open>Inr\<close>).\<close>

type_synonym 'a response = "fetch_error + 'a"

text \<open>
  The two tests on the status that the sources repeat:
  \<^verbatim>\<open>job.status === 'pending' || job.status === 'running'\<close> and
  \<^verbatim>\<open>job.status === 'completed' || job.status === 'failed'\<close>.
\<close>

definition pendingOrRunning :: "BacktestJob \<Rightarrow> bool" where
  "pendingOrRunning job \<longleftrightarrow> status job = Pending \<or> status job = Running"

definition completedOrFailed :: "BacktestJob \<Rightarrow> bool" where
  "completedOrFailed job \<longleftrightarrow> status job = Completed \<or> status job = Failed"

section \<open>pollJobStatus (services/api)\<close>

text \<open>
  \<^verbatim>\<open>pollJobStatus(jobId, interval = 2000)\<close> runs \<^verbatim>\<open>checkStatus\<close>: it awaits
  \<^verbatim>\<open>fetchBacktestJob(jobId)\<close>; a thrown error rejects the promise, a completed or failed
  record resolves it, and any other record schedules \<^verbatim>\<open>checkStatus\<close> again with
  \<^verbatim>\<open>setTimeout(checkStatus, interval)\<close>.

  The answers of the server are the input: the list holds the answers that have arrived so
  far, in order. The result is the trace of what the loop did (a request, or a timer set
  with its delay in milliseconds) and the state of the promise. With no answer left the
  last request is still awaited and the promise is still pending.
\<close>

datatype poll_event = Fetch int | SetTimeout nat

datatype poll_outcome = Resolved BacktestJob | Rejected fetch_error | StillPending

fun checkStatus :: "int \<Rightarrow> nat \<Rightarrow> BacktestJob response list \<Rightarrow> poll_event list \<times> poll_outcome" where
  "checkStatus jobId ms [] = ([Fetch jobId], StillPending)"
| "checkStatus jobId ms (Inl err # rest) = ([Fetch jobId], Rejected err)"
| "checkStatus jobId ms (Inr job # rest) =
     (if status job = Completed \<or> status job = Failed then ([Fetch jobId], Resolved job)
      else (case checkStatus jobId ms rest of
              (events, outcome) \<Rightarrow> (Fetch jobId # SetTimeout ms # events, outcome)))"

definition pollJobStatus :: "int \<Rightarrow> nat option \<Rightarrow> BacktestJob response list \<Rightarrow> poll_event list \<times> poll_outcome" where
  "pollJobStatus jobId interval_arg =
     checkStatus jobId (case interval_arg of None \<Rightarrow> 2000 | Some ms \<Rightarrow> ms)"

section \<open>The component BacktestJobStatus\<close>

text \<open>
  The state of the component is its four \<^verbatim>\<open>useState\<close> cells. Two more fields record what
  the component does to the outside: the requests it starts (\<open>GetJobs\<close> for
  \<^verbatim>\<open>fetchBacktestJobs()\<close>, \<open>PollJob id\<close> for a call of \<^verbatim>\<open>pollJobStatus(id)\<close>) and the lines
  it writes with \<^verbatim>\<open>console.error\<close>.

  The cell \<^verbatim>\<open>jobs\<close> is declared \<^verbatim>\<open>BacktestJob[]\<close>, but at run time it holds whatever
  \<^verbatim>\<open>setJobs\<close> was given, so the record is parametric in what that cell holds. In a
  \<open>tracker\<close> it holds an array of jobs, as declared.
\<close>

datatype request = GetJobs | PollJob int

datatype console_line = LoadFailed fetch_error | PollingFailed int fetch_error

record 'j cells =
  jobs :: 'j
  loading :: bool
  error :: "string option"
  pollingJobs :: "int set"
  requests :: "request list"
  console :: "console_line list"

type_synonym tracker = "BacktestJob list cells"

definition initial :: tracker where
  "initial = \<lparr>jobs = [], loading = True, error = None, pollingJobs = {},
              requests = [], console = []\<rparr>"

subsection \<open>loadJobs\<close>

text \<open>
  \<^verbatim>\<open>loadJobs\<close> sets \<^verbatim>\<open>loading\<close>, awaits \<^verbatim>\<open>fetchBacktestJobs()\<close>, and either stores the
  fetched list (filtered unless \<^verbatim>\<open>showCompleted\<close>) and clears the error, or, in the
  \<^verbatim>\<open>catch\<close> branch, sets the error message and logs. The \<^verbatim>\<open>finally\<close> branch clears
  \<^verbatim>\<open>loading\<close>.
\<close>

definition loadJobs :: "bool \<Rightarrow> BacktestJob list response \<Rightarrow> tracker \<Rightarrow> tracker" where
  "loadJobs showCompleted answer st =
     (let st1 = st\<lparr>loading := True, requests := requests st @ [GetJobs]\<rparr>;
          st2 = (case answer of
                   Inr allJobs \<Rightarrow>
                     (let filteredJobs = (if showCompleted then allJobs
                                          else filter pendingOrRunning allJobs)
                      in st1\<lparr>jobs := filteredJobs, error := None\<rparr>)
                 | Inl err \<Rightarrow>
                     st1\<lparr>error := Some ''Failed to load backtest jobs'',
                         console := console st1 @ [LoadFailed err]\<rparr>)
      in st2\<lparr>loading := False\<rparr>)"

subsection \<open>The resolution and the rejection of a poll\<close>

text \<open>
  The \<^verbatim>\<open>then\<close> handler of \<^verbatim>\<open>pollJobStatus(job.id)\<close>:
  \<^verbatim>\<open>setJobs(prev => prev.map(j => j.id === updatedJob.id ? updatedJob : j))\<close>, and the id
  leaves \<^verbatim>\<open>pollingJobs\<close> when the record is completed or failed.
\<close>

definition mergeJob :: "BacktestJob \<Rightarrow> BacktestJob list \<Rightarrow> BacktestJob list" where
  "mergeJob updatedJob prev = map (\<lambda>j. if job_id j = job_id updatedJob then updatedJob else j) prev"

definition onPollResolved :: "BacktestJob \<Rightarrow> tracker \<Rightarrow> tracker" where
  "onPollResolved updatedJob st =
     (let st1 = st\<lparr>jobs := mergeJob updatedJob (jobs st)\<rparr>
      in if status updatedJob = Completed \<or> status updatedJob = Failed
         then st1\<lparr>pollingJobs := pollingJobs st1 - {job_id updatedJob}\<rparr>
         else st1)"

text \<open>The \<^verbatim>\<open>catch\<close> handler only writes to the console.\<close>

definition onPollRejected :: "int \<Rightarrow> fetch_error \<Rightarrow> tracker \<Rightarrow> tracker" where
  "onPollRejected jobId err st = st\<lparr>console := console st @ [PollingFailed jobId err]\<rparr>"

subsection \<open>The effect on \<^verbatim>\<open>[jobs]\<close>: starting and retiring polls\<close>

text \<open>
  The first \<^verbatim>\<open>forEach\<close> runs over the pending and running jobs: a job whose id is not in
  \<^verbatim>\<open>pollingJobs\<close> (the set of the current render, not the copy being built) is added to
  the copy and \<^verbatim>\<open>pollJobStatus\<close> is called for it.
\<close>

definition startPolling :: "int set \<Rightarrow> BacktestJob \<Rightarrow> int set \<times> bool \<times> request list
    \<Rightarrow> int set \<times> bool \<times> request list" where
  "startPolling polling job acc =
     (case acc of (newPollingSet, changed, reqs) \<Rightarrow>
        if job_id job \<notin> polling
        then (insert (job_id job) newPollingSet, True, reqs @ [PollJob (job_id job)])
        else (newPollingSet, changed, reqs))"

text \<open>
  The test of the second \<^verbatim>\<open>forEach\<close>:
  \<^verbatim>\<open>const job = jobs.find(j => j.id === jobId);
  if (!job || (job.status !== 'pending' && job.status !== 'running'))\<close>.
\<close>

definition noLongerActive :: "BacktestJob list \<Rightarrow> int \<Rightarrow> bool" where
  "noLongerActive js jobId =
     (case find (\<lambda>j. job_id j = jobId) js of
        None \<Rightarrow> True
      | Some job \<Rightarrow> status job \<noteq> Pending \<and> status job \<noteq> Running)"

text \<open>
  The second \<^verbatim>\<open>forEach\<close> runs over \<^verbatim>\<open>pollingJobs\<close> and deletes from the copy every id that
  passes the test; each round deletes its own id only, so the order of the rounds does not
  matter and the loop is a set difference. \<^verbatim>\<open>setPollingJobs\<close> is called only when one of
  the loops changed the copy.
\<close>

definition pollingEffect :: "tracker \<Rightarrow> tracker" where
  "pollingEffect st =
     (let pendingRunningJobs = filter pendingOrRunning (jobs st);
          (added, started, reqs) =
             fold (startPolling (pollingJobs st)) pendingRunningJobs
                  (pollingJobs st, False, requests st);
          retired = Set.filter (noLongerActive (jobs st)) (pollingJobs st);
          newPollingSet = added - retired;
          changed = (started \<or> retired \<noteq> {})
      in st\<lparr>pollingJobs := (if changed then newPollingSet else pollingJobs st),
            requests := reqs\<rparr>)"

text \<open>
  React runs the effect after every render in which \<^verbatim>\<open>jobs\<close> is a new array. Both
  \<^verbatim>\<open>setJobs(filteredJobs)\<close> and \<^verbatim>\<open>setJobs(prev => prev.map(...))\<close> store a new array, so
  the effect follows every successful load and every resolution of a poll; a failed load
  does not call \<^verbatim>\<open>setJobs\<close>.
\<close>

definition refreshAll :: "bool \<Rightarrow> BacktestJob list response \<Rightarrow> tracker \<Rightarrow> tracker" where
  "refreshAll showCompleted answer st =
     (case answer of
        Inr allJobs \<Rightarrow> pollingEffect (loadJobs showCompleted answer st)
      | Inl err \<Rightarrow> loadJobs showCompleted answer st)"

definition pollResolved :: "BacktestJob \<Rightarrow> tracker \<Rightarrow> tracker" where
  "pollResolved updatedJob st = pollingEffect (onPollResolved updatedJob st)"

subsection \<open>The interval refresh\<close>

text \<open>
  The callback of \<^verbatim>\<open>setInterval\<close>: \<^verbatim>\<open>loadJobs()\<close> is called only when the list holds a
  pending or running job.
\<close>

definition intervalTick :: "bool \<Rightarrow> BacktestJob list response \<Rightarrow> tracker \<Rightarrow> tracker" where
  "intervalTick showCompleted answer st =
     (let activeJobs = filter pendingOrRunning (jobs st)
      in if length activeJobs > 0 then refreshAll showCompleted answer st else st)"

subsection \<open>What the request returns when the body cannot be decoded\<close>





subsection \<open>What the component renders\<close>



subsection \<open>Runs of the component\<close>

text \<open>
  What happens to the component, one event at a time: a load that succeeds with a list or
  throws (the first load, a change of \<^verbatim>\<open>showCompleted\<close>, an interval tick that finds a
  pending or running job), and a poll that resolves or rejects. A run starts in the initial
  state.
\<close>

datatype event =
    Loaded bool "BacktestJob list"
  | LoadThrew bool fetch_error
  | PollSettled BacktestJob
  | PollThrew int fetch_error

fun step :: "event \<Rightarrow> tracker \<Rightarrow> tracker" where
  "step (Loaded showCompleted allJobs) st = refreshAll showCompleted (Inr allJobs) st"
| "step (LoadThrew showCompleted err) st = refreshAll showCompleted (Inl err) st"
| "step (PollSettled updatedJob) st = pollResolved updatedJob st"
| "step (PollThrew jobId err) st = onPollRejected jobId err st"

definition run :: "event list \<Rightarrow> tracker" where
  "run events = fold step events initial"

section \<open>Notions used by the properties\<close>

text \<open>
  The ids of the pending and running jobs of a list: what the Tracked Set should hold.
\<close>

definition activeIds :: "BacktestJob list \<Rightarrow> int set" where
  "activeIds js = job_id ` {j \<in> set js. pendingOrRunning j}"

text \<open>
  What the effect establishes: an id is in \<^verbatim>\<open>pollingJobs\<close> exactly when the stored list
  holds a pending or running record of that id. This is a statement about the stored list;
  the statuses that the component has observed are \<open>lastObserved\<close> below.
\<close>

definition trackedInv :: "tracker \<Rightarrow> bool" where
  "trackedInv st \<longleftrightarrow> pollingJobs st = activeIds (jobs st)"

text \<open>A job record for examples: the given id, status and \<^verbatim>\<open>updated_at\<close>, a fixed configuration.\<close>

definition exampleJob :: "int \<Rightarrow> job_status \<Rightarrow> string option \<Rightarrow> BacktestJob" where
  "exampleJob i s u =
     \<lparr>job_id = i, created_at = ''2024-01-01T00:00:00'', updated_at = u, status = s,
      error_message = None, strategy_name = ''sma_cross'', strategy_params = [],
      symbol = ''BTCUSDT'', interval = ''1h'', start_date = None, end_date = None,
      initial_capital = 10000, take_profit_pct = None, stop_loss_pct = None,
      backtest_run_id = None\<rparr>"

text \<open>
  The states the component can be in: it is mounted in the initial state; a load succeeds (the
  backend reports each job once, so the ids of the fetched list are distinct) or fails; a poll
  resolves with a completed or failed record, or rejects. An interval tick is a load or nothing.
\<close>

inductive reachable :: "tracker \<Rightarrow> bool" where
  mounted: "reachable initial"
| refreshed: "reachable st \<Longrightarrow> distinct (map job_id allJobs) \<Longrightarrow>
     reachable (refreshAll showCompleted (Inr allJobs) st)"
| refresh_failed: "reachable st \<Longrightarrow> reachable (refreshAll showCompleted (Inl err) st)"
| resolved: "reachable st \<Longrightarrow> completedOrFailed updatedJob \<Longrightarrow>
     reachable (pollResolved updatedJob st)"
| rejected: "reachable st \<Longrightarrow> reachable (onPollRejected jobId err st)"

text \<open>
  The events the backend and the poll loop can produce: the backend reports each job once, so
  the ids of a fetched list are distinct, and \<^verbatim>\<open>pollJobStatus\<close> resolves with completed or
  failed records only.
\<close>

fun admissible :: "event \<Rightarrow> bool" where
  "admissible (Loaded showCompleted allJobs) = distinct (map job_id allJobs)"
| "admissible (LoadThrew showCompleted err) = True"
| "admissible (PollSettled updatedJob) = completedOrFailed updatedJob"
| "admissible (PollThrew jobId err) = True"

text \<open>
  The status of a job that an event lets the component observe: that of its record in a
  fetched list (whether or not the view keeps the record), or that of the record a poll
  resolves with.
\<close>

fun observes :: "event \<Rightarrow> int \<Rightarrow> job_status option" where
  "observes (Loaded showCompleted allJobs) i =
     map_option status (find (\<lambda>j. job_id j = i) allJobs)"
| "observes (LoadThrew showCompleted err) i = None"
| "observes (PollSettled updatedJob) i =
     (if job_id updatedJob = i then Some (status updatedJob) else None)"
| "observes (PollThrew jobId err) i = None"

text \<open>The most recently observed status of a job in a run, if it was observed at all.\<close>

definition lastObserved :: "event list \<Rightarrow> int \<Rightarrow> job_status option" where
  "lastObserved events i =
     fold (\<lambda>e seen. case observes e i of Some s \<Rightarrow> Some s | None \<Rightarrow> seen) events None"

definition observedActive :: "event list \<Rightarrow> int \<Rightarrow> bool" where
  "observedActive events i \<longleftrightarrow>
     lastObserved events i = Some Pending \<or> lastObserved events i = Some Running"

text \<open>Whether the list of the most recent successful load has a record of the job.\<close>

definition stillListed :: "event list \<Rightarrow> int \<Rightarrow> bool" where
  "stillListed events i =
     fold (\<lambda>e listed. case e of Loaded showCompleted allJobs \<Rightarrow> i \<in> job_id ` set allJobs
                        | _ \<Rightarrow> listed) events False"

text \<open>
  The answers after which \<^verbatim>\<open>checkStatus\<close> sets the timer again: a record that is neither
  completed nor failed.
\<close>

definition keepsPolling :: "BacktestJob response \<Rightarrow> bool" where
  "keepsPolling answer = (case answer of Inl err \<Rightarrow> False | Inr job \<Rightarrow> pendingOrRunning job)"

text \<open>
  The recency order of the specification, for stating what the merge does not do: both records
  carry \<^verbatim>\<open>updated_at\<close>, and the timestamps, ISO-8601 strings of one format, are compared
  as strings, character by character.
\<close>

fun timestampBefore :: "string \<Rightarrow> string \<Rightarrow> bool" where
  "timestampBefore [] [] = False"
| "timestampBefore [] (y # ys) = True"
| "timestampBefore (x # xs) [] = False"
| "timestampBefore (x # xs) (y # ys) =
     ((of_char x :: nat) < of_char y \<or> (x = y \<and> timestampBefore xs ys))"

definition staler :: "BacktestJob \<Rightarrow> BacktestJob \<Rightarrow> bool" where
  "staler a b =
     (case (updated_at a, updated_at b) of
        (Some s, Some t) \<Rightarrow> timestampBefore s t
      | _ \<Rightarrow> False)"

section \<open>Auxiliary facts\<close>

subsection \<open>The merge\<close>

lemma mergeJob_length: "length (mergeJob u js) = length js"
  by (simp add: mergeJob_def)

lemma mergeJob_ids: "map job_id (mergeJob u js) = map job_id js"
  by (simp add: mergeJob_def)

lemma mergeJob_nth:
  "i < length js \<Longrightarrow> mergeJob u js ! i = (if job_id (js ! i) = job_id u then u else js ! i)"
  by (simp add: mergeJob_def)

lemma mergeJob_absent: "job_id u \<notin> job_id ` set js \<Longrightarrow> mergeJob u js = js"
  by (induction js) (auto simp: mergeJob_def)

lemma activeIds_mergeJob:
  "completedOrFailed u \<Longrightarrow> activeIds (mergeJob u js) = activeIds js - {job_id u}"
  by (auto simp: activeIds_def mergeJob_def completedOrFailed_def pendingOrRunning_def)

lemma activeIds_filter: "activeIds (filter pendingOrRunning js) = activeIds js"
  by (auto simp: activeIds_def)

subsection \<open>loadJobs\<close>

lemma loadJobs_frame:
  "pollingJobs (loadJobs sc a st) = pollingJobs st"
  "requests (loadJobs sc a st) = requests st @ [GetJobs]"
  "loading (loadJobs sc a st) = False"
  by (simp_all add: loadJobs_def Let_def split: sum.splits)

lemma loadJobs_ok:
  "jobs (loadJobs sc (Inr allJobs) st) = (if sc then allJobs else filter pendingOrRunning allJobs)"
  "error (loadJobs sc (Inr allJobs) st) = None"
  "console (loadJobs sc (Inr allJobs) st) = console st"
  by (simp_all add: loadJobs_def Let_def)

lemma loadJobs_failed:
  "jobs (loadJobs sc (Inl e) st) = jobs st"
  "error (loadJobs sc (Inl e) st) = Some ''Failed to load backtest jobs''"
  "console (loadJobs sc (Inl e) st) = console st @ [LoadFailed e]"
  by (simp_all add: loadJobs_def Let_def)

lemma distinct_stored:
  "distinct (map job_id allJobs) \<Longrightarrow> distinct (map job_id (jobs (loadJobs sc (Inr allJobs) st)))"
  by (simp add: loadJobs_ok distinct_map_filter)

subsection \<open>The two loops of the effect\<close>

lemma fold_startPolling:
  "fold (startPolling P) js (N, c, r) =
     (N \<union> {job_id j | j. j \<in> set js \<and> job_id j \<notin> P},
      c \<or> (\<exists>j \<in> set js. job_id j \<notin> P),
      r @ map (\<lambda>j. PollJob (job_id j)) (filter (\<lambda>j. job_id j \<notin> P) js))"
  by (induction js arbitrary: N c r) (auto simp: startPolling_def)

lemma find_Some_distinct:
  "distinct (map job_id js) \<Longrightarrow>
   (find (\<lambda>x. job_id x = i) js = Some j) = (j \<in> set js \<and> job_id j = i)"
  by (induction js) (auto simp: rev_image_eqI)

lemma find_None_ids: "(find (\<lambda>x. job_id x = i) js = None) = (i \<notin> job_id ` set js)"
  by (induction js) auto

lemma noLongerActive_distinct:
  assumes "distinct (map job_id js)"
  shows "noLongerActive js x \<longleftrightarrow> x \<notin> activeIds js"
proof (cases "find (\<lambda>j. job_id j = x) js")
  case None
  then have "x \<notin> job_id ` set js" by (simp add: find_None_ids)
  then have "x \<notin> activeIds js" by (auto simp: activeIds_def)
  with None show ?thesis by (simp add: noLongerActive_def)
next
  case (Some job)
  then have job: "job \<in> set js" "job_id job = x"
    using assms by (simp_all add: find_Some_distinct)
  have "x \<in> activeIds js \<longleftrightarrow> pendingOrRunning job"
  proof
    assume "x \<in> activeIds js"
    then obtain j where j: "j \<in> set js" "pendingOrRunning j" "job_id j = x"
      by (auto simp: activeIds_def)
    with assms have "find (\<lambda>j. job_id j = x) js = Some j" by (simp add: find_Some_distinct)
    with Some j show "pendingOrRunning job" by simp
  next
    assume "pendingOrRunning job"
    with job show "x \<in> activeIds js" by (auto simp: activeIds_def)
  qed
  with Some show ?thesis by (simp add: noLongerActive_def pendingOrRunning_def)
qed

lemma pollingEffect_frame:
  "jobs (pollingEffect st) = jobs st" "loading (pollingEffect st) = loading st"
  "error (pollingEffect st) = error st" "console (pollingEffect st) = console st"
  by (simp_all add: pollingEffect_def Let_def fold_startPolling)

lemma pollingEffect_requests:
  "requests (pollingEffect st) =
     requests st @ map (\<lambda>j. PollJob (job_id j))
       (filter (\<lambda>j. job_id j \<notin> pollingJobs st) (filter pendingOrRunning (jobs st)))"
  by (simp add: pollingEffect_def Let_def fold_startPolling)

lemma pollingEffect_polling:
  assumes "distinct (map job_id (jobs st))"
  shows "pollingJobs (pollingEffect st) = activeIds (jobs st)"
proof -
  let ?P = "pollingJobs st" and ?A = "activeIds (jobs st)"
  have added: "?P \<union> {job_id j | j. j \<in> set (filter pendingOrRunning (jobs st)) \<and> job_id j \<notin> ?P}
      = ?P \<union> ?A"
    by (auto simp: activeIds_def)
  have retired: "Set.filter (noLongerActive (jobs st)) ?P = ?P - ?A"
    using assms by (auto simp: noLongerActive_distinct)
  have started: "(\<exists>j \<in> set (filter pendingOrRunning (jobs st)). job_id j \<notin> ?P) \<longleftrightarrow> \<not> ?A \<subseteq> ?P"
    by (auto simp: activeIds_def)
  have "pollingJobs (pollingEffect st) =
      (if \<not> ?A \<subseteq> ?P \<or> ?P - ?A \<noteq> {} then (?P \<union> ?A) - (?P - ?A) else ?P)"
    unfolding pollingEffect_def Let_def fold_startPolling added retired started
    by simp
  also have "\<dots> = ?A" by auto
  finally show ?thesis .
qed

lemma pollingEffect_fixed:
  assumes "distinct (map job_id (jobs st))" and "trackedInv st"
  shows "pollingEffect st = st"
proof -
  let ?P = "pollingJobs st"
  have P: "?P = activeIds (jobs st)" using assms(2) by (simp add: trackedInv_def)
  have none: "filter (\<lambda>j. job_id j \<notin> ?P) (filter pendingOrRunning (jobs st)) = []"
    by (auto simp: P activeIds_def filter_empty_conv)
  have "requests (pollingEffect st) = requests st"
    by (simp only: pollingEffect_requests none) simp
  moreover have "pollingJobs (pollingEffect st) = pollingJobs st"
    using assms(1) P by (simp add: pollingEffect_polling)
  ultimately show ?thesis
    by (simp add: pollingEffect_frame cells.equality)
qed

subsection \<open>The invariant\<close>

lemma trackedInv_refreshed:
  assumes "distinct (map job_id allJobs)"
  shows "trackedInv (refreshAll sc (Inr allJobs) st)"
    and "distinct (map job_id (jobs (refreshAll sc (Inr allJobs) st)))"
  using assms distinct_stored [OF assms, of sc st]
  by (simp_all add: refreshAll_def trackedInv_def pollingEffect_polling pollingEffect_frame)

lemma trackedInv_refresh_failed:
  "trackedInv (refreshAll sc (Inl e) st) = trackedInv st"
  by (simp add: refreshAll_def trackedInv_def loadJobs_frame loadJobs_failed)

lemma onPollResolved_fields:
  "jobs (onPollResolved u st) = mergeJob u (jobs st)"
  "completedOrFailed u \<Longrightarrow> pollingJobs (onPollResolved u st) = pollingJobs st - {job_id u}"
  by (simp_all add: onPollResolved_def Let_def completedOrFailed_def)

lemma trackedInv_onPollResolved:
  "trackedInv st \<Longrightarrow> completedOrFailed u \<Longrightarrow> trackedInv (onPollResolved u st)"
  by (simp add: trackedInv_def onPollResolved_fields activeIds_mergeJob)

lemma trackedInv_pollResolved:
  assumes "distinct (map job_id (jobs st))"
  shows "trackedInv (pollResolved u st)" and "distinct (map job_id (jobs (pollResolved u st)))"
  using assms
  by (simp_all add: pollResolved_def trackedInv_def pollingEffect_polling pollingEffect_frame
        onPollResolved_fields mergeJob_ids)

lemma onPollRejected_fields:
  "jobs (onPollRejected i e st) = jobs st"
  "pollingJobs (onPollRejected i e st) = pollingJobs st"
  "requests (onPollRejected i e st) = requests st"
  "error (onPollRejected i e st) = error st"
  "loading (onPollRejected i e st) = loading st"
  "console (onPollRejected i e st) = console st @ [PollingFailed i e]"
  by (simp_all add: onPollRejected_def)

lemma reachable_invariant:
  "reachable st \<Longrightarrow> trackedInv st \<and> distinct (map job_id (jobs st))"
proof (induction rule: reachable.induct)
  case mounted
  show ?case by (simp add: initial_def trackedInv_def activeIds_def)
next
  case (refreshed st allJobs showCompleted)
  then show ?case by (simp add: trackedInv_refreshed)
next
  case (refresh_failed st showCompleted err)
  then show ?case by (simp add: trackedInv_refresh_failed) (simp add: refreshAll_def loadJobs_failed)
next
  case (resolved st updatedJob)
  then show ?case by (simp add: trackedInv_pollResolved)
next
  case (rejected st jobId err)
  then show ?case by (simp add: trackedInv_def onPollRejected_fields)
qed

lemma activeIds_list: "activeIds js = set (map job_id (filter pendingOrRunning js))"
  by (auto simp: activeIds_def)

lemma terminal_not_active:
  assumes "distinct (map job_id js)" "j \<in> set js" "completedOrFailed j"
  shows "job_id j \<notin> activeIds js"
proof
  assume "job_id j \<in> activeIds js"
  then obtain k where k: "k \<in> set js" "pendingOrRunning k" "job_id k = job_id j"
    by (auto simp: activeIds_def)
  from assms(1) have "inj_on job_id (set js)" by (simp add: distinct_map)
  with k assms(2) have "k = j" by (auto dest: inj_onD)
  with k(2) assms(3) show False by (auto simp: pendingOrRunning_def completedOrFailed_def)
qed

subsection \<open>Counting the polls that the effect starts\<close>

lemma count_started:
  "count_list (map (\<lambda>j. PollJob (job_id j)) js) (PollJob i) = length (filter (\<lambda>j. job_id j = i) js)"
  by (induction js) auto

lemma one_record_per_id:
  "distinct (map job_id js) \<Longrightarrow> j \<in> set js \<Longrightarrow> filter (\<lambda>x. job_id x = job_id j) js = [j]"
proof (induction js)
  case Nil
  then show ?case by simp
next
  case (Cons a js)
  show ?case
  proof (cases "a = j")
    case True
    with Cons.prems have "\<forall>x \<in> set js. job_id x \<noteq> job_id j" by (auto simp: image_iff)
    then have "filter (\<lambda>x. job_id x = job_id j) js = []" by (simp add: filter_empty_conv)
    with True show ?thesis by simp
  next
    case False
    with Cons.prems have "j \<in> set js" "job_id a \<noteq> job_id j" by auto
    with Cons show ?thesis by simp
  qed
qed

lemma no_active_iff: "filter pendingOrRunning js = [] \<longleftrightarrow> activeIds js = {}"
  by (auto simp: activeIds_def filter_empty_conv)

subsection \<open>The poll loop\<close>

lemma status_cases: "pendingOrRunning job \<longleftrightarrow> \<not> (status job = Completed \<or> status job = Failed)"
  by (cases "status job") (simp_all add: pendingOrRunning_def)

lemma completedOrFailed_iff: "completedOrFailed job \<longleftrightarrow> \<not> pendingOrRunning job"
  by (simp add: status_cases completedOrFailed_def)

lemma keepsPolling_simps:
  "keepsPolling (Inl err) = False" "keepsPolling (Inr job) = pendingOrRunning job"
  by (simp_all add: keepsPolling_def)

lemma checkStatus_events:
  "fst (checkStatus jobId ms answers) =
     concat (replicate (length (takeWhile keepsPolling answers)) [Fetch jobId, SetTimeout ms])
       @ [Fetch jobId]"
  by (induction jobId ms answers rule: checkStatus.induct)
     (auto simp: keepsPolling_simps status_cases split: prod.splits)

lemma checkStatus_outcome:
  "snd (checkStatus jobId ms answers) =
     (case dropWhile keepsPolling answers of
        [] \<Rightarrow> StillPending
      | Inl err # rest \<Rightarrow> Rejected err
      | Inr job # rest \<Rightarrow> Resolved job)"
  by (induction jobId ms answers rule: checkStatus.induct)
     (auto simp: keepsPolling_simps status_cases split: prod.splits)

lemma checkStatus_waiting:
  "\<forall>w \<in> set waiting. pendingOrRunning w \<Longrightarrow>
   checkStatus jobId ms (map Inr waiting @ answers) =
     (concat (replicate (length waiting) [Fetch jobId, SetTimeout ms]) @ fst (checkStatus jobId ms answers),
      snd (checkStatus jobId ms answers))"
  by (induction waiting) (simp_all add: status_cases split: prod.splits)

lemma resolved_only_after_waiting:
  "snd (checkStatus jobId ms answers) = Resolved job \<Longrightarrow>
   \<exists>waiting rest. answers = map Inr waiting @ Inr job # rest \<and>
      (\<forall>w \<in> set waiting. pendingOrRunning w) \<and> completedOrFailed job"
proof (induction jobId ms answers rule: checkStatus.induct)
  case (1 jobId ms)
  then show ?case by simp
next
  case (2 jobId ms err rest)
  then show ?case by simp
next
  case (3 jobId ms j rest)
  show ?case
  proof (cases "status j = Completed \<or> status j = Failed")
    case True
    with 3(2) have "j = job" by simp
    with True have "Inr j # rest = map Inr [] @ Inr job # rest \<and>
      (\<forall>w \<in> set []. pendingOrRunning w) \<and> completedOrFailed job"
      by (simp add: completedOrFailed_def)
    then show ?thesis by blast
  next
    case False
    with 3(2) have "snd (checkStatus jobId ms rest) = Resolved job"
      by (simp split: prod.splits)
    with 3(1) False obtain waiting rest' where w: "rest = map Inr waiting @ Inr job # rest'"
      "\<forall>w \<in> set waiting. pendingOrRunning w" "completedOrFailed job" by blast
    from False have "pendingOrRunning j" by (simp add: status_cases)
    with w have "Inr j # rest = map Inr (j # waiting) @ Inr job # rest' \<and>
      (\<forall>w \<in> set (j # waiting). pendingOrRunning w) \<and> completedOrFailed job" by simp
    then show ?thesis by blast
  qed
qed

subsection \<open>The console does not influence the component\<close>

lemma pollingEffect_console:
  "pollingEffect (st\<lparr>console := k\<rparr>) = (pollingEffect st)\<lparr>console := k\<rparr>"
  unfolding pollingEffect_def Let_def fold_startPolling by auto

lemma refreshAll_ok:
  "jobs (refreshAll sc (Inr allJobs) st) = (if sc then allJobs else filter pendingOrRunning allJobs)"
  "requests (refreshAll sc (Inr allJobs) st) =
     requests st @ GetJobs # map (\<lambda>j. PollJob (job_id j))
       (filter (\<lambda>j. job_id j \<notin> pollingJobs st) (filter pendingOrRunning allJobs))"
  by (simp_all add: refreshAll_def pollingEffect_frame pollingEffect_requests loadJobs_ok loadJobs_frame)

lemma onPollResolved_console:
  "onPollResolved u (st\<lparr>console := k\<rparr>) = (onPollResolved u st)\<lparr>console := k\<rparr>"
  by (simp add: onPollResolved_def Let_def)

lemma loadJobs_console:
  "(loadJobs sc answer (st\<lparr>console := k\<rparr>))\<lparr>console := c\<rparr> = (loadJobs sc answer st)\<lparr>console := c\<rparr>"
  by (simp add: loadJobs_def Let_def split: sum.splits)

lemma refreshAll_console:
  "(refreshAll sc answer (st\<lparr>console := k\<rparr>))\<lparr>console := c\<rparr> = (refreshAll sc answer st)\<lparr>console := c\<rparr>"
proof (cases answer)
  case (Inl e)
  then show ?thesis by (simp add: refreshAll_def loadJobs_console)
next
  case (Inr allJobs)
  have "loadJobs sc (Inr allJobs) (st\<lparr>console := k\<rparr>) = (loadJobs sc (Inr allJobs) st)\<lparr>console := k\<rparr>"
    by (simp add: loadJobs_def Let_def)
  with Inr show ?thesis by (simp add: refreshAll_def pollingEffect_console)
qed

lemma intervalTick_console:
  "(intervalTick sc answer (st\<lparr>console := k\<rparr>))\<lparr>console := c\<rparr> = (intervalTick sc answer st)\<lparr>console := c\<rparr>"
  by (simp add: intervalTick_def Let_def refreshAll_console)

subsection \<open>Two merges, one refresh\<close>

lemma mergeJob_twice: "job_id a = job_id b \<Longrightarrow> mergeJob b (mergeJob a js) = mergeJob b js"
  by (induction js) (simp_all add: mergeJob_def)

lemma mergeJob_same_id: "j \<in> set (mergeJob b js) \<Longrightarrow> job_id j = job_id b \<Longrightarrow> j = b"
  by (auto simp: mergeJob_def split: if_splits)

subsection \<open>Runs and what they observe\<close>

lemma run_snoc: "run (events @ [e]) = step e (run events)"
  by (simp add: run_def)

lemma lastObserved_snoc:
  "lastObserved (events @ [e]) i =
     (case observes e i of Some s \<Rightarrow> Some s | None \<Rightarrow> lastObserved events i)"
  by (simp add: lastObserved_def split: option.splits)

lemma stillListed_snoc:
  "stillListed (events @ [e]) i =
     (case e of Loaded showCompleted allJobs \<Rightarrow> i \<in> job_id ` set allJobs
      | _ \<Rightarrow> stillListed events i)"
  by (simp add: stillListed_def split: event.splits)

lemma reachable_run: "list_all admissible events \<Longrightarrow> reachable (run events)"
proof (induction events rule: rev_induct)
  case Nil
  show ?case by (simp add: run_def reachable.mounted)
next
  case (snoc e events)
  then have r: "reachable (run events)" and a: "admissible e" by simp_all
  show ?case
  proof (cases e)
    case (Loaded sc allJobs)
    with r a show ?thesis by (simp add: run_snoc reachable.refreshed)
  next
    case (LoadThrew sc err)
    with r show ?thesis by (simp add: run_snoc reachable.refresh_failed)
  next
    case (PollSettled u)
    with r a show ?thesis by (simp add: run_snoc reachable.resolved)
  next
    case (PollThrew i err)
    with r show ?thesis by (simp add: run_snoc reachable.rejected)
  qed
qed

lemma activeIds_find:
  assumes "distinct (map job_id js)"
  shows "i \<in> activeIds js \<longleftrightarrow>
     (\<exists>j. find (\<lambda>j. job_id j = i) js = Some j \<and> pendingOrRunning j)"
  using assms by (auto simp: activeIds_def find_Some_distinct)

lemma pollResolved_jobs: "jobs (pollResolved u st) = mergeJob u (jobs st)"
  by (simp add: pollResolved_def pollingEffect_frame onPollResolved_fields)

lemma stored_after_run:
  "list_all admissible events \<Longrightarrow>
   i \<in> activeIds (jobs (run events)) \<longleftrightarrow> observedActive events i \<and> stillListed events i"
proof (induction events rule: rev_induct)
  case Nil
  show ?case
    by (simp add: run_def initial_def activeIds_def observedActive_def lastObserved_def)
next
  case (snoc e events)
  then have IH: "i \<in> activeIds (jobs (run events)) \<longleftrightarrow>
      observedActive events i \<and> stillListed events i"
    and a: "admissible e" by simp_all
  show ?case
  proof (cases e)
    case (Loaded sc allJobs)
    with a have d: "distinct (map job_id allJobs)" by simp
    have "activeIds (jobs (run (events @ [e]))) = activeIds allJobs"
      by (simp add: Loaded run_snoc refreshAll_ok activeIds_filter)
    moreover have "i \<in> activeIds allJobs \<longleftrightarrow>
        observedActive (events @ [e]) i \<and> stillListed (events @ [e]) i"
    proof (cases "find (\<lambda>j. job_id j = i) allJobs")
      case None
      then have "i \<notin> job_id ` set allJobs" using find_None_ids [of i allJobs] by simp
      with None d show ?thesis
        by (simp add: Loaded activeIds_find stillListed_snoc)
    next
      case (Some j)
      then have "i \<in> job_id ` set allJobs" using find_None_ids [of i allJobs] by simp
      with Some d show ?thesis
        by (auto simp: Loaded activeIds_find stillListed_snoc observedActive_def
              lastObserved_snoc pendingOrRunning_def)
    qed
    ultimately show ?thesis by simp
  next
    case (LoadThrew sc err)
    then show ?thesis
      using IH by (simp add: run_snoc refreshAll_def loadJobs_failed observedActive_def
          lastObserved_snoc stillListed_snoc)
  next
    case (PollSettled u)
    with a have t: "completedOrFailed u" by simp
    then have "\<not> pendingOrRunning u" by (simp add: completedOrFailed_iff)
    then have "status u \<noteq> Pending" "status u \<noteq> Running" by (simp_all add: pendingOrRunning_def)
    then show ?thesis
      using IH t by (auto simp: PollSettled run_snoc pollResolved_jobs activeIds_mergeJob
          observedActive_def lastObserved_snoc stillListed_snoc)
  next
    case (PollThrew k err)
    then show ?thesis
      using IH by (simp add: run_snoc onPollRejected_fields observedActive_def
          lastObserved_snoc stillListed_snoc)
  qed
qed

lemma tracked_after_run:
  assumes "list_all admissible events"
  shows "i \<in> pollingJobs (run events) \<longleftrightarrow> observedActive events i \<and> stillListed events i"
proof -
  from assms have "trackedInv (run events)"
    by (simp add: reachable_run reachable_invariant)
  then have "pollingJobs (run events) = activeIds (jobs (run events))" by (simp add: trackedInv_def)
  with assms show ?thesis by (simp add: stored_after_run)
qed

subsection \<open>Loads of undecoded data, and the render\<close>








subsection \<open>Two resolutions of one job\<close>

lemma mergeJob_present: "job_id b \<in> job_id ` set js \<Longrightarrow> b \<in> set (mergeJob b js)"
  by (auto simp: mergeJob_def)

lemma onPollResolved_twice:
  "job_id a = job_id b \<Longrightarrow>
   jobs (onPollResolved b (onPollResolved a st)) = jobs (onPollResolved b st)"
  by (simp add: onPollResolved_fields mergeJob_twice)

section \<open>The properties of the specification\<close>

text \<open>
  C9. Merging the record of a resolved poll replaces the records of the same id where they
  stand: the list keeps its length and the order of its ids, and position \<open>i\<close> holds the
  resolved record if the record there had its id, and the record that was there otherwise.
\<close>

theorem merge_replaces_by_id_in_place:
  "length (mergeJob u js) = length js \<and>
   map job_id (mergeJob u js) = map job_id js \<and>
   (\<forall>i < length js. mergeJob u js ! i = (if job_id (js ! i) = job_id u then u else js ! i)) \<and>
   jobs (onPollResolved u st) = mergeJob u (jobs st)"
  by (simp add: mergeJob_length mergeJob_ids mergeJob_nth onPollResolved_def Let_def)

theorem merge_replaces_by_id_in_place_witness:
  "mergeJob (exampleJob 2 Failed None)
     [exampleJob 1 Completed None, exampleJob 2 Pending None, exampleJob 3 Running None] ! 1
     = exampleJob 2 Failed None \<and>
   mergeJob (exampleJob 2 Failed None)
     [exampleJob 1 Completed None, exampleJob 2 Pending None, exampleJob 3 Running None] ! 2
     = exampleJob 3 Running None"
  using merge_replaces_by_id_in_place [of "exampleJob 2 Failed None"
     "[exampleJob 1 Completed None, exampleJob 2 Pending None, exampleJob 3 Running None]" initial]
  by (simp add: exampleJob_def)

text \<open>
  C10. When the list holds no record of the id of the resolved record, the handler leaves the
  list as it is: the resolved record is not appended, and is nowhere in the list afterwards.
\<close>

theorem resolved_record_of_absent_id_is_dropped:
  assumes "job_id u \<notin> job_id ` set (jobs st)"
  shows "jobs (onPollResolved u st) = jobs st \<and> u \<notin> set (jobs (onPollResolved u st)) \<and>
         length (jobs (onPollResolved u st)) = length (jobs st)"
proof -
  have "jobs (onPollResolved u st) = jobs st"
    using assms by (simp add: onPollResolved_def Let_def mergeJob_absent)
  moreover have "u \<notin> set (jobs st)" using assms by auto
  ultimately show ?thesis by simp
qed

theorem resolved_record_of_absent_id_is_dropped_witness:
  "job_id (exampleJob 2 Completed None\<lparr>backtest_run_id := Some 7\<rparr>)
      \<notin> job_id ` set (jobs (initial\<lparr>jobs := [exampleJob 1 Pending None]\<rparr>)) \<and>
   jobs (onPollResolved (exampleJob 2 Completed None\<lparr>backtest_run_id := Some 7\<rparr>)
          (initial\<lparr>jobs := [exampleJob 1 Pending None]\<rparr>)) = [exampleJob 1 Pending None]"
  using resolved_record_of_absent_id_is_dropped
    [of "exampleJob 2 Completed None\<lparr>backtest_run_id := Some 7\<rparr>"
        "initial\<lparr>jobs := [exampleJob 1 Pending None]\<rparr>"]
  by (simp add: exampleJob_def initial_def)

text \<open>
  C5. One run of the effect calls \<^verbatim>\<open>pollJobStatus\<close> for no id that is in the Tracked Set,
  and, the ids of the list being distinct, exactly once for every pending or running job
  whose id is not in it, and that id is in the Tracked Set afterwards; a second run of the
  effect changes nothing and starts nothing.
\<close>
theorem ensurePolling_starts_one_loop:
  "(\<forall>i \<in> pollingJobs st.
      count_list (requests (pollingEffect st)) (PollJob i) = count_list (requests st) (PollJob i)) \<and>
   (distinct (map job_id (jobs st)) \<longrightarrow>
      (\<forall>j \<in> set (jobs st). pendingOrRunning j \<and> job_id j \<notin> pollingJobs st \<longrightarrow>
         count_list (requests (pollingEffect st)) (PollJob (job_id j))
           = count_list (requests st) (PollJob (job_id j)) + 1 \<and>
         job_id j \<in> pollingJobs (pollingEffect st)) \<and>
      pollingEffect (pollingEffect st) = pollingEffect st)"
proof (intro conjI impI ballI)
  fix i assume "i \<in> pollingJobs st"
  then have "filter (\<lambda>j. job_id j = i)
      (filter (\<lambda>j. job_id j \<notin> pollingJobs st) (filter pendingOrRunning (jobs st))) = []"
    by (auto simp: filter_empty_conv)
  then show "count_list (requests (pollingEffect st)) (PollJob i) = count_list (requests st) (PollJob i)"
    by (simp add: pollingEffect_requests count_started)
next
  fix j
  assume d: "distinct (map job_id (jobs st))" and j: "j \<in> set (jobs st)"
    and new: "pendingOrRunning j \<and> job_id j \<notin> pollingJobs st"
  let ?new = "filter (\<lambda>j. job_id j \<notin> pollingJobs st) (filter pendingOrRunning (jobs st))"
  have "distinct (map job_id ?new)" using d by (simp add: distinct_map_filter)
  moreover have "j \<in> set ?new" using j new by simp
  ultimately have "filter (\<lambda>x. job_id x = job_id j) ?new = [j]" by (rule one_record_per_id)
  then show "count_list (requests (pollingEffect st)) (PollJob (job_id j))
           = count_list (requests st) (PollJob (job_id j)) + 1"
    by (simp add: pollingEffect_requests count_started)
  show "job_id j \<in> pollingJobs (pollingEffect st)"
    using d j new by (auto simp: pollingEffect_polling activeIds_def)
next
  assume d: "distinct (map job_id (jobs st))"
  then have "trackedInv (pollingEffect st)"
    by (simp add: trackedInv_def pollingEffect_polling pollingEffect_frame)
  with d show "pollingEffect (pollingEffect st) = pollingEffect st"
    by (simp add: pollingEffect_fixed pollingEffect_frame)
qed

theorem ensurePolling_starts_one_loop_witness:
  "requests (pollingEffect (initial\<lparr>jobs := [exampleJob 1 Running None, exampleJob 2 Pending None],
                                    pollingJobs := {1}, requests := [GetJobs, PollJob 1]\<rparr>))
     = [GetJobs, PollJob 1, PollJob 2] \<and>
   count_list (requests (pollingEffect (initial\<lparr>jobs := [exampleJob 1 Running None, exampleJob 2 Pending None],
                                    pollingJobs := {1}, requests := [GetJobs, PollJob 1]\<rparr>))) (PollJob 1) = 1 \<and>
   count_list (requests (pollingEffect (initial\<lparr>jobs := [exampleJob 1 Running None, exampleJob 2 Pending None],
                                    pollingJobs := {1}, requests := [GetJobs, PollJob 1]\<rparr>))) (PollJob 2) = 1 \<and>
   2 \<in> pollingJobs (pollingEffect (initial\<lparr>jobs := [exampleJob 1 Running None, exampleJob 2 Pending None],
                                    pollingJobs := {1}, requests := [GetJobs, PollJob 1]\<rparr>))"
proof -
  let ?st = "initial\<lparr>jobs := [exampleJob 1 Running None, exampleJob 2 Pending None],
                     pollingJobs := {1}, requests := [GetJobs, PollJob 1]\<rparr>"
  have d: "distinct (map job_id (jobs ?st))" by (simp add: exampleJob_def)
  have p: "pollingJobs ?st = {1}" by simp
  have j: "exampleJob 2 Pending None \<in> set (jobs ?st)" by simp
  have a: "pendingOrRunning (exampleJob 2 Pending None) \<and> job_id (exampleJob 2 Pending None) \<notin> pollingJobs ?st"
    by (simp add: exampleJob_def pendingOrRunning_def)
  have r: "requests (pollingEffect ?st) = [GetJobs, PollJob 1, PollJob 2]"
    by (simp add: pollingEffect_requests exampleJob_def pendingOrRunning_def)
  have i2: "job_id (exampleJob 2 Pending None) = 2" by (simp add: exampleJob_def)
  from ensurePolling_starts_one_loop [of ?st] d
  have "\<forall>j \<in> set (jobs ?st). pendingOrRunning j \<and> job_id j \<notin> pollingJobs ?st \<longrightarrow>
         count_list (requests (pollingEffect ?st)) (PollJob (job_id j))
           = count_list (requests ?st) (PollJob (job_id j)) + 1 \<and>
         job_id j \<in> pollingJobs (pollingEffect ?st)" by blast
  with j a have "count_list (requests (pollingEffect ?st)) (PollJob (job_id (exampleJob 2 Pending None)))
           = count_list (requests ?st) (PollJob (job_id (exampleJob 2 Pending None))) + 1 \<and>
         job_id (exampleJob 2 Pending None) \<in> pollingJobs (pollingEffect ?st)" by blast
  then have two: "count_list (requests (pollingEffect ?st)) (PollJob 2) = 1 \<and> 2 \<in> pollingJobs (pollingEffect ?st)"
    by (simp add: i2)
  from ensurePolling_starts_one_loop [of ?st] p
  have "count_list (requests (pollingEffect ?st)) (PollJob 1) = count_list (requests ?st) (PollJob 1)"
    by blast
  then have one: "count_list (requests (pollingEffect ?st)) (PollJob 1) = 1" by simp
  from r one two show ?thesis by blast
qed

text \<open>
  C8. The callback of the interval tests the list for a pending or running job; in a state
  the component reaches this is the test that the Tracked Set is non-empty. With the
  Tracked Set empty the tick leaves the state as it is and starts no request; otherwise it
  is a load (one \<^verbatim>\<open>fetchBacktestJobs\<close> request) followed by the effect.
\<close>
theorem interval_tick_gated_by_tracked_set:
  assumes "reachable st"
  shows "(pollingJobs st = {} \<longrightarrow>
           intervalTick sc answer st = st \<and> requests (intervalTick sc answer st) = requests st) \<and>
         (pollingJobs st \<noteq> {} \<longrightarrow>
           intervalTick sc answer st = pollingEffect (loadJobs sc answer st) \<and>
           (\<exists>polls. requests (intervalTick sc answer st) = requests st @ GetJobs # polls))"
proof -
  from assms have inv: "trackedInv st" and d: "distinct (map job_id (jobs st))"
    by (simp_all add: reachable_invariant)
  from inv have P: "pollingJobs st = activeIds (jobs st)" by (simp add: trackedInv_def)
  have idle: "pollingJobs st = {} \<Longrightarrow> intervalTick sc answer st = st"
    by (simp add: intervalTick_def Let_def P no_active_iff)
  have busy: "intervalTick sc answer st = pollingEffect (loadJobs sc answer st)"
    if "pollingJobs st \<noteq> {}"
  proof (cases answer)
    case (Inl e)
    have "trackedInv (loadJobs sc (Inl e) st)" "distinct (map job_id (jobs (loadJobs sc (Inl e) st)))"
      using inv d by (simp_all add: trackedInv_def loadJobs_frame loadJobs_failed)
    then have "pollingEffect (loadJobs sc (Inl e) st) = loadJobs sc (Inl e) st"
      by (simp add: pollingEffect_fixed)
    with that Inl show ?thesis
      by (simp add: intervalTick_def Let_def P no_active_iff refreshAll_def)
  next
    case (Inr allJobs)
    with that show ?thesis
      by (simp add: intervalTick_def Let_def P no_active_iff refreshAll_def)
  qed
  have "\<exists>polls. requests (pollingEffect (loadJobs sc answer st)) = requests st @ GetJobs # polls"
    by (simp add: pollingEffect_requests loadJobs_frame)
  with idle busy show ?thesis by simp
qed

theorem interval_tick_gated_by_tracked_set_witness:
  "intervalTick True (Inr [exampleJob 1 Completed None]) initial = initial \<and>
   requests (intervalTick True (Inr [exampleJob 1 Completed None])
               (refreshAll True (Inr [exampleJob 1 Running None]) initial))
     = [GetJobs, PollJob 1, GetJobs]"
proof -
  let ?busy = "refreshAll True (Inr [exampleJob 1 Running None]) initial"
  have r: "reachable ?busy"
    by (rule reachable.refreshed [OF reachable.mounted]) (simp add: exampleJob_def)
  have p0: "pollingJobs initial = {}" by (simp add: initial_def)
  have "trackedInv ?busy" using r by (simp add: reachable_invariant)
  then have p1: "pollingJobs ?busy = {1}"
    by (simp add: trackedInv_def refreshAll_def pollingEffect_frame loadJobs_ok activeIds_list
          exampleJob_def pendingOrRunning_def)
  have req: "requests ?busy = [GetJobs, PollJob 1]"
    by (simp add: refreshAll_def pollingEffect_requests loadJobs_frame loadJobs_ok initial_def
          exampleJob_def pendingOrRunning_def)
  have c: "\<not> pendingOrRunning (exampleJob 1 Completed None)"
    by (simp add: exampleJob_def pendingOrRunning_def)
  from interval_tick_gated_by_tracked_set [OF reachable.mounted, of True "Inr [exampleJob 1 Completed None]"] p0
  have a: "intervalTick True (Inr [exampleJob 1 Completed None]) initial = initial" by simp
  from interval_tick_gated_by_tracked_set [OF r, of True "Inr [exampleJob 1 Completed None]"] p1
  have "intervalTick True (Inr [exampleJob 1 Completed None]) ?busy
        = pollingEffect (loadJobs True (Inr [exampleJob 1 Completed None]) ?busy)" by simp
  then have "requests (intervalTick True (Inr [exampleJob 1 Completed None]) ?busy)
        = requests (pollingEffect (loadJobs True (Inr [exampleJob 1 Completed None]) ?busy))"
    by (simp only:)
  also have "\<dots> = [GetJobs, PollJob 1, GetJobs]"
    by (simp add: pollingEffect_requests loadJobs_frame loadJobs_ok req c)
  finally have "requests (intervalTick True (Inr [exampleJob 1 Completed None]) ?busy)
        = [GetJobs, PollJob 1, GetJobs]" .
  with a show ?thesis by simp
qed

text \<open>
  C7. The trace of \<^verbatim>\<open>pollJobStatus\<close> is one request per answer consumed, each request but
  the first made after the timer that the previous answer set, all timers with the same
  delay, which is 2000 ms when no interval is passed. The promise resolves with a record
  exactly when that record is the first completed or failed one and every answer before it
  was a pending or running record; a record it resolves with is never pending or running.
\<close>
theorem pollJobStatus_resolves_on_terminal_record:
  "fst (checkStatus jobId ms answers) =
     concat (replicate (length (takeWhile keepsPolling answers)) [Fetch jobId, SetTimeout ms])
       @ [Fetch jobId] \<and>
   (snd (checkStatus jobId ms answers) = Resolved job \<longleftrightarrow>
      (\<exists>waiting rest. answers = map Inr waiting @ Inr job # rest \<and>
         (\<forall>w \<in> set waiting. pendingOrRunning w) \<and> completedOrFailed job)) \<and>
   (snd (checkStatus jobId ms answers) = Resolved job \<longrightarrow>
      completedOrFailed job \<and> \<not> pendingOrRunning job) \<and>
   pollJobStatus jobId None = checkStatus jobId 2000 \<and>
   pollJobStatus jobId (Some ms) = checkStatus jobId ms"
proof (intro conjI)
  show "fst (checkStatus jobId ms answers) =
     concat (replicate (length (takeWhile keepsPolling answers)) [Fetch jobId, SetTimeout ms])
       @ [Fetch jobId]" by (rule checkStatus_events)
  show "snd (checkStatus jobId ms answers) = Resolved job \<longleftrightarrow>
      (\<exists>waiting rest. answers = map Inr waiting @ Inr job # rest \<and>
         (\<forall>w \<in> set waiting. pendingOrRunning w) \<and> completedOrFailed job)"
  proof
    assume "snd (checkStatus jobId ms answers) = Resolved job"
    then show "\<exists>waiting rest. answers = map Inr waiting @ Inr job # rest \<and>
         (\<forall>w \<in> set waiting. pendingOrRunning w) \<and> completedOrFailed job"
      by (rule resolved_only_after_waiting)
  next
    assume "\<exists>waiting rest. answers = map Inr waiting @ Inr job # rest \<and>
         (\<forall>w \<in> set waiting. pendingOrRunning w) \<and> completedOrFailed job"
    then obtain waiting rest where "answers = map Inr waiting @ Inr job # rest"
      "\<forall>w \<in> set waiting. pendingOrRunning w" "completedOrFailed job" by blast
    then show "snd (checkStatus jobId ms answers) = Resolved job"
      by (simp add: checkStatus_waiting completedOrFailed_def)
  qed
  show "snd (checkStatus jobId ms answers) = Resolved job \<longrightarrow>
      completedOrFailed job \<and> \<not> pendingOrRunning job"
    using resolved_only_after_waiting [of jobId ms answers job]
    by (auto simp: completedOrFailed_iff)
  show "pollJobStatus jobId None = checkStatus jobId 2000" by (simp add: pollJobStatus_def)
  show "pollJobStatus jobId (Some ms) = checkStatus jobId ms" by (simp add: pollJobStatus_def)
qed

theorem pollJobStatus_resolves_on_terminal_record_witness:
  "pollJobStatus 42 None
     [Inr (exampleJob 42 Running None), Inr (exampleJob 42 Completed None\<lparr>backtest_run_id := Some 7\<rparr>)]
   = ([Fetch 42, SetTimeout 2000, Fetch 42],
      Resolved (exampleJob 42 Completed None\<lparr>backtest_run_id := Some 7\<rparr>))"
proof -
  let ?r = "exampleJob 42 Running None"
  let ?c = "exampleJob 42 Completed None\<lparr>backtest_run_id := Some 7\<rparr>"
  have k: "takeWhile keepsPolling [Inr ?r, Inr ?c] = [Inr ?r]"
    by (simp add: keepsPolling_simps pendingOrRunning_def exampleJob_def)
  have w: "[Inr ?r, Inr ?c] = map Inr [?r] @ Inr ?c # [] \<and>
      (\<forall>w \<in> set [?r]. pendingOrRunning w) \<and> completedOrFailed ?c"
    by (simp add: pendingOrRunning_def completedOrFailed_def exampleJob_def)
  note t = pollJobStatus_resolves_on_terminal_record [of 42 2000 "[Inr ?r, Inr ?c]" ?c]
  from t have "fst (checkStatus 42 2000 [Inr ?r, Inr ?c]) = [Fetch 42, SetTimeout 2000, Fetch 42]"
    by (simp only: k) simp
  moreover from t w have "snd (checkStatus 42 2000 [Inr ?r, Inr ?c]) = Resolved ?c" by blast
  moreover from t have "pollJobStatus 42 None = checkStatus 42 2000" by blast
  ultimately show ?thesis by (simp add: prod_eq_iff)
qed

text \<open>
  C2, as stated, fails. With a network failure as the first answer, \<^verbatim>\<open>pollJobStatus\<close>
  rejects after its one request, although the next answer would have been the completed
  record; and the id stays in the Tracked Set, so a later refresh that still reports the job
  as pending starts no second poll for it.
\<close>
theorem poll_failure_is_not_retried:
  "pollJobStatus 42 None [Inl NetworkFailure, Inr (exampleJob 42 Completed None)]
     = ([Fetch 42], Rejected NetworkFailure) \<and>
   requests (refreshAll True (Inr [exampleJob 42 Pending None]) initial) = [GetJobs, PollJob 42] \<and>
   requests (refreshAll True (Inr [exampleJob 42 Pending None])
      (onPollRejected 42 NetworkFailure (refreshAll True (Inr [exampleJob 42 Pending None]) initial)))
     = [GetJobs, PollJob 42, GetJobs]"
proof -
  let ?all = "[exampleJob 42 Pending None]"
  let ?st = "refreshAll True (Inr ?all) initial"
  have a: "pendingOrRunning (exampleJob 42 Pending None)" "job_id (exampleJob 42 Pending None) = 42"
    by (simp_all add: exampleJob_def pendingOrRunning_def)
  have d: "distinct (map job_id ?all)" by simp
  have i: "requests initial = []" "pollingJobs initial = {}" by (simp_all add: initial_def)
  have r: "requests ?st = [GetJobs, PollJob 42]"
    by (simp add: refreshAll_ok a i)
  have p: "pollingJobs ?st = {42}"
    using trackedInv_refreshed(1) [OF d, of True initial]
    by (simp add: trackedInv_def refreshAll_ok activeIds_list a)
  have "requests (refreshAll True (Inr ?all) (onPollRejected 42 NetworkFailure ?st))
     = [GetJobs, PollJob 42, GetJobs]"
    by (simp add: refreshAll_ok(2) [of True _ "onPollRejected 42 NetworkFailure ?st"]
          onPollRejected_fields a r p)
  moreover have "pollJobStatus 42 None [Inl NetworkFailure, Inr (exampleJob 42 Completed None)]
     = ([Fetch 42], Rejected NetworkFailure)" by (simp add: pollJobStatus_def)
  ultimately show ?thesis using r by simp
qed

text \<open>
  C2, amended. A failed request ends the poll loop of its job: after any number of pending
  or running answers, \<^verbatim>\<open>pollJobStatus\<close> rejects with the error, having set no timer and
  made no request after the failed one. The component writes one console line and changes
  nothing else, so interval ticks, refreshes and the resolutions of other polls go on as
  they would have; and the effect starts no new poll for an id that is still in the
  Tracked Set.
\<close>
theorem poll_failure_rejects_and_is_contained:
  "((\<forall>w \<in> set waiting. pendingOrRunning w) \<longrightarrow>
      checkStatus jobId ms (map Inr waiting @ Inl err # rest) =
        (concat (replicate (length waiting) [Fetch jobId, SetTimeout ms]) @ [Fetch jobId],
         Rejected err)) \<and>
   onPollRejected jobId err st = st\<lparr>console := console st @ [PollingFailed jobId err]\<rparr> \<and>
   (intervalTick sc answer (onPollRejected jobId err st))\<lparr>console := c\<rparr>
      = (intervalTick sc answer st)\<lparr>console := c\<rparr> \<and>
   (refreshAll sc answer (onPollRejected jobId err st))\<lparr>console := c\<rparr>
      = (refreshAll sc answer st)\<lparr>console := c\<rparr> \<and>
   pollResolved u (onPollRejected jobId err st) = onPollRejected jobId err (pollResolved u st) \<and>
   (jobId \<in> pollingJobs st \<longrightarrow>
      count_list (requests (pollingEffect (onPollRejected jobId err st))) (PollJob jobId)
        = count_list (requests st) (PollJob jobId))"
proof (intro conjI impI)
  assume "\<forall>w \<in> set waiting. pendingOrRunning w"
  then show "checkStatus jobId ms (map Inr waiting @ Inl err # rest) =
        (concat (replicate (length waiting) [Fetch jobId, SetTimeout ms]) @ [Fetch jobId],
         Rejected err)"
    by (simp add: checkStatus_waiting)
next
  show "onPollRejected jobId err st = st\<lparr>console := console st @ [PollingFailed jobId err]\<rparr>"
    by (simp add: onPollRejected_def)
  show "(intervalTick sc answer (onPollRejected jobId err st))\<lparr>console := c\<rparr>
      = (intervalTick sc answer st)\<lparr>console := c\<rparr>"
    by (simp add: onPollRejected_def intervalTick_console)
  show "(refreshAll sc answer (onPollRejected jobId err st))\<lparr>console := c\<rparr>
      = (refreshAll sc answer st)\<lparr>console := c\<rparr>"
    by (simp add: onPollRejected_def refreshAll_console)
  have "console (onPollResolved u st) = console st"
    by (simp add: onPollResolved_def Let_def)
  then have k: "console (pollResolved u st) = console st"
    by (simp add: pollResolved_def pollingEffect_frame)
  have "pollResolved u (onPollRejected jobId err st)
      = (pollResolved u st)\<lparr>console := console st @ [PollingFailed jobId err]\<rparr>"
    by (simp only: pollResolved_def onPollRejected_def onPollResolved_console pollingEffect_console)
  also have "\<dots> = onPollRejected jobId err (pollResolved u st)"
    by (simp only: onPollRejected_def k)
  finally show "pollResolved u (onPollRejected jobId err st) = onPollRejected jobId err (pollResolved u st)" .
next
  assume "jobId \<in> pollingJobs st"
  then have "filter (\<lambda>j. job_id j = jobId)
      (filter (\<lambda>j. job_id j \<notin> pollingJobs st) (filter pendingOrRunning (jobs st))) = []"
    by (auto simp: filter_empty_conv)
  then show "count_list (requests (pollingEffect (onPollRejected jobId err st))) (PollJob jobId)
        = count_list (requests st) (PollJob jobId)"
    by (simp add: pollingEffect_requests onPollRejected_fields count_started)
qed

theorem poll_failure_rejects_and_is_contained_witness:
  "checkStatus 42 2000 [Inr (exampleJob 42 Running None), Inl NetworkFailure,
                          Inr (exampleJob 42 Completed None)]
     = ([Fetch 42, SetTimeout 2000, Fetch 42], Rejected NetworkFailure) \<and>
   count_list (requests (pollingEffect (onPollRejected 42 NetworkFailure
        (initial\<lparr>jobs := [exampleJob 42 Running None], pollingJobs := {42},
                  requests := [GetJobs, PollJob 42]\<rparr>)))) (PollJob 42) = 1"
proof -
  let ?st = "initial\<lparr>jobs := [exampleJob 42 Running None], pollingJobs := {42},
                  requests := [GetJobs, PollJob 42]\<rparr>"
  note t = poll_failure_rejects_and_is_contained
    [of "[exampleJob 42 Running None]" 42 2000 NetworkFailure "[Inr (exampleJob 42 Completed None)]" ?st]
  have w: "\<forall>w \<in> set [exampleJob 42 Running None]. pendingOrRunning w"
    by (simp add: exampleJob_def pendingOrRunning_def)
  from t w have "checkStatus 42 2000 (map Inr [exampleJob 42 Running None] @ Inl NetworkFailure #
       [Inr (exampleJob 42 Completed None)])
     = (concat (replicate (length [exampleJob 42 Running None]) [Fetch 42, SetTimeout 2000]) @ [Fetch 42],
         Rejected NetworkFailure)" by blast
  then have one: "checkStatus 42 2000 [Inr (exampleJob 42 Running None), Inl NetworkFailure,
                          Inr (exampleJob 42 Completed None)]
     = ([Fetch 42, SetTimeout 2000, Fetch 42], Rejected NetworkFailure)" by simp
  have "42 \<in> pollingJobs ?st" by simp
  with t have "count_list (requests (pollingEffect (onPollRejected 42 NetworkFailure ?st))) (PollJob 42)
        = count_list (requests ?st) (PollJob 42)" by blast
  then have "count_list (requests (pollingEffect (onPollRejected 42 NetworkFailure ?st))) (PollJob 42) = 1"
    by simp
  with one show ?thesis by simp
qed

text \<open>
  C3, as stated, fails. In the active view (\<^verbatim>\<open>showCompleted\<close> false) the stored list is the
  filtered list: the completed job of the fetched collection is not stored.
\<close>
theorem active_view_stores_filtered_list:
  "jobs (loadJobs False (Inr [exampleJob 1 Completed None, exampleJob 2 Pending None]) initial)
     = [exampleJob 2 Pending None] \<and>
   jobs (loadJobs False (Inr [exampleJob 1 Completed None, exampleJob 2 Pending None]) initial)
     \<noteq> [exampleJob 1 Completed None, exampleJob 2 Pending None]"
  by (simp add: loadJobs_ok pendingOrRunning_def exampleJob_def)

text \<open>
  C3, amended. The full view stores the fetched collection, the active view its pending and
  running jobs; the pending and running jobs of the stored list are the same in both views,
  so are the polls that the refresh starts, and, for a fetched collection with distinct ids,
  so is the Tracked Set after the refresh.
\<close>
theorem views_track_the_same_jobs:
  "jobs (loadJobs True (Inr allJobs) st) = allJobs \<and>
   jobs (loadJobs False (Inr allJobs) st) = filter pendingOrRunning allJobs \<and>
   filter pendingOrRunning (jobs (loadJobs True (Inr allJobs) st))
     = filter pendingOrRunning (jobs (loadJobs False (Inr allJobs) st)) \<and>
   requests (refreshAll True (Inr allJobs) st) = requests (refreshAll False (Inr allJobs) st) \<and>
   (distinct (map job_id allJobs) \<longrightarrow>
      pollingJobs (refreshAll True (Inr allJobs) st) = pollingJobs (refreshAll False (Inr allJobs) st))"
proof (intro conjI impI)
  assume d: "distinct (map job_id allJobs)"
  have "pollingJobs (refreshAll sc (Inr allJobs) st) = activeIds allJobs" for sc
    using trackedInv_refreshed(1) [OF d, of sc st]
    by (simp add: trackedInv_def refreshAll_ok activeIds_filter)
  then show "pollingJobs (refreshAll True (Inr allJobs) st) = pollingJobs (refreshAll False (Inr allJobs) st)"
    by simp
qed (simp_all add: loadJobs_ok refreshAll_ok)

theorem views_track_the_same_jobs_witness:
  "pollingJobs (refreshAll True (Inr [exampleJob 1 Completed None, exampleJob 2 Pending None]) initial)
     = pollingJobs (refreshAll False (Inr [exampleJob 1 Completed None, exampleJob 2 Pending None]) initial) \<and>
   distinct (map job_id [exampleJob 1 Completed None, exampleJob 2 Pending None])"
proof -
  have d: "distinct (map job_id [exampleJob 1 Completed None, exampleJob 2 Pending None])"
    by (simp add: exampleJob_def)
  with views_track_the_same_jobs [of "[exampleJob 1 Completed None, exampleJob 2 Pending None]" initial]
  show ?thesis by blast
qed



text \<open>
  C6, as stated, fails. Jobs 2 and 3 are loaded as pending, and 2 is tracked. The next load
  lists job 3 only. The status of job 2 that was observed last is still pending, but the
  effect finds no record of it and takes its id out of the Tracked Set.
\<close>
theorem unlisted_job_leaves_tracked_set_while_pending:
  "list_all admissible [Loaded True [exampleJob 2 Pending None, exampleJob 3 Pending None],
                        Loaded True [exampleJob 3 Pending None]] \<and>
   2 \<in> pollingJobs (run [Loaded True [exampleJob 2 Pending None, exampleJob 3 Pending None]]) \<and>
   lastObserved [Loaded True [exampleJob 2 Pending None, exampleJob 3 Pending None],
                 Loaded True [exampleJob 3 Pending None]] 2 = Some Pending \<and>
   2 \<notin> pollingJobs (run [Loaded True [exampleJob 2 Pending None, exampleJob 3 Pending None],
                           Loaded True [exampleJob 3 Pending None]])"
proof -
  let ?one = "[Loaded True [exampleJob 2 Pending None, exampleJob 3 Pending None]]"
  let ?two = "[Loaded True [exampleJob 2 Pending None, exampleJob 3 Pending None],
               Loaded True [exampleJob 3 Pending None]]"
  have a1: "list_all admissible ?one" and a2: "list_all admissible ?two"
    by (simp_all add: exampleJob_def)
  have seen: "lastObserved ?two 2 = Some Pending" "lastObserved ?one 2 = Some Pending"
    by (simp_all add: lastObserved_def exampleJob_def)
  have "stillListed ?one 2" "\<not> stillListed ?two 2"
    by (simp_all add: stillListed_def exampleJob_def)
  with seen have "2 \<in> pollingJobs (run ?one)" "2 \<notin> pollingJobs (run ?two)"
    by (simp_all add: tracked_after_run [OF a1] tracked_after_run [OF a2] observedActive_def)
  with a2 seen show ?thesis by simp
qed

text \<open>
  C6, amended. After every run of loads (each followed by the effect), poll resolutions and
  failures, an id is in the Tracked Set exactly when its most recently observed status is
  pending or running and the most recent successful load still lists it; that is, exactly
  when the stored list holds a pending or running record of it. The effect run once more
  changes nothing. After a load, no job that the fetched list reports as completed or
  failed, and no id that the fetched list does not contain, is in the Tracked Set; after a
  poll resolves with a completed or failed record, its id is not in the Tracked Set.
\<close>
theorem tracked_set_membership:
  assumes "list_all admissible events"
  shows "(i \<in> pollingJobs (run events) \<longleftrightarrow> observedActive events i \<and> stillListed events i) \<and>
         (i \<in> pollingJobs (run events) \<longleftrightarrow> i \<in> activeIds (jobs (run events))) \<and>
         pollingEffect (run events) = run events \<and>
         (distinct (map job_id allJobs) \<longrightarrow>
            (\<forall>j \<in> set allJobs. completedOrFailed j \<longrightarrow>
                job_id j \<notin> pollingJobs (run (events @ [Loaded sc allJobs]))) \<and>
            (i \<notin> job_id ` set allJobs \<longrightarrow>
                i \<notin> pollingJobs (run (events @ [Loaded sc allJobs])))) \<and>
         (completedOrFailed u \<longrightarrow> job_id u \<notin> pollingJobs (run (events @ [PollSettled u])))"
proof (intro conjI impI ballI)
  show "i \<in> pollingJobs (run events) \<longleftrightarrow> observedActive events i \<and> stillListed events i"
    using assms by (rule tracked_after_run)
  from assms have inv: "trackedInv (run events)" "distinct (map job_id (jobs (run events)))"
    by (simp_all add: reachable_run reachable_invariant)
  then show "i \<in> pollingJobs (run events) \<longleftrightarrow> i \<in> activeIds (jobs (run events))"
    by (simp add: trackedInv_def)
  from inv show "pollingEffect (run events) = run events" by (simp add: pollingEffect_fixed)
next
  fix j
  assume d: "distinct (map job_id allJobs)" and j: "j \<in> set allJobs" "completedOrFailed j"
  from assms d have a: "list_all admissible (events @ [Loaded sc allJobs])" by simp
  from d j have "job_id j \<notin> activeIds allJobs" by (rule terminal_not_active)
  moreover have "activeIds (jobs (run (events @ [Loaded sc allJobs]))) = activeIds allJobs"
    by (simp add: run_snoc refreshAll_ok activeIds_filter)
  moreover from a have "trackedInv (run (events @ [Loaded sc allJobs]))"
    by (simp only: reachable_run reachable_invariant)
  ultimately show "job_id j \<notin> pollingJobs (run (events @ [Loaded sc allJobs]))"
    by (simp add: trackedInv_def)
next
  assume d: "distinct (map job_id allJobs)" and i: "i \<notin> job_id ` set allJobs"
  from assms d have a: "list_all admissible (events @ [Loaded sc allJobs])" by simp
  from i have "\<not> stillListed (events @ [Loaded sc allJobs]) i" by (simp add: stillListed_snoc)
  then show "i \<notin> pollingJobs (run (events @ [Loaded sc allJobs]))"
    by (simp add: tracked_after_run [OF a])
next
  assume t: "completedOrFailed u"
  from assms t have a: "list_all admissible (events @ [PollSettled u])" by simp
  from t have "\<not> pendingOrRunning u" by (simp add: completedOrFailed_iff)
  then have "\<not> observedActive (events @ [PollSettled u]) (job_id u)"
    by (simp add: observedActive_def lastObserved_snoc pendingOrRunning_def)
  then show "job_id u \<notin> pollingJobs (run (events @ [PollSettled u]))"
    by (simp add: tracked_after_run [OF a])
qed


theorem tracked_set_membership_witness:
  "2 \<in> pollingJobs (run [Loaded True [exampleJob 1 Completed None, exampleJob 2 Pending None,
                                         exampleJob 3 Running None],
                            PollSettled (exampleJob 3 Failed None)]) \<and>
   3 \<notin> pollingJobs (run [Loaded True [exampleJob 1 Completed None, exampleJob 2 Pending None,
                                         exampleJob 3 Running None],
                            PollSettled (exampleJob 3 Failed None)]) \<and>
   2 \<notin> pollingJobs (run ([Loaded True [exampleJob 1 Completed None, exampleJob 2 Pending None,
                                          exampleJob 3 Running None],
                             PollSettled (exampleJob 3 Failed None)]
                            @ [Loaded False [exampleJob 2 Completed None, exampleJob 4 Pending None]])) \<and>
   3 \<notin> pollingJobs (run ([Loaded True [exampleJob 1 Completed None, exampleJob 2 Pending None,
                                          exampleJob 3 Running None],
                             PollSettled (exampleJob 3 Failed None)]
                            @ [Loaded False [exampleJob 2 Completed None, exampleJob 4 Pending None]])) \<and>
   2 \<notin> pollingJobs (run ([Loaded True [exampleJob 1 Completed None, exampleJob 2 Pending None,
                                          exampleJob 3 Running None],
                             PollSettled (exampleJob 3 Failed None)]
                            @ [PollSettled (exampleJob 2 Completed None)]))"
proof -
  let ?es = "[Loaded True [exampleJob 1 Completed None, exampleJob 2 Pending None,
                           exampleJob 3 Running None],
              PollSettled (exampleJob 3 Failed None)]"
  let ?all = "[exampleJob 2 Completed None, exampleJob 4 Pending None]"
  let ?u = "exampleJob 2 Completed None"
  have a: "list_all admissible ?es" by (simp add: exampleJob_def completedOrFailed_def)
  have d: "distinct (map job_id ?all)" by (simp add: exampleJob_def)
  have u: "completedOrFailed ?u" "job_id ?u = 2" "?u \<in> set ?all"
    by (simp_all add: exampleJob_def completedOrFailed_def)
  have o2: "observedActive ?es 2 \<and> stillListed ?es 2"
    by (simp add: observedActive_def lastObserved_def stillListed_def exampleJob_def)
  have o3: "\<not> observedActive ?es 3"
    by (simp add: observedActive_def lastObserved_def exampleJob_def)
  have n3: "3 \<notin> job_id ` set ?all" by (simp add: exampleJob_def)
  note t2 = tracked_set_membership [OF a, of 2 ?all False ?u]
  note t3 = tracked_set_membership [OF a, of 3 ?all False ?u]
  from t2 o2 have one: "2 \<in> pollingJobs (run ?es)" by blast
  from t3 o3 have two: "3 \<notin> pollingJobs (run ?es)" by blast
  from t2 d u have "job_id ?u \<notin> pollingJobs (run (?es @ [Loaded False ?all]))" by blast
  then have three: "2 \<notin> pollingJobs (run (?es @ [Loaded False ?all]))" by (simp add: u(2))
  from t3 d n3 have four: "3 \<notin> pollingJobs (run (?es @ [Loaded False ?all]))" by blast
  from t2 u have "job_id ?u \<notin> pollingJobs (run (?es @ [PollSettled ?u]))" by blast
  then have five: "2 \<notin> pollingJobs (run (?es @ [PollSettled ?u]))" by (simp add: u(2))
  from one two three four five show ?thesis by blast
qed

text \<open>
  C1, as stated, fails. The poll of job 2 resolves with a failed record updated at 00:05:00.
  A record of job 2 updated at 00:01:00 arrives after it: with a refreshed list, in which
  the job is still pending, or with the resolution of a second poll. In each case the list
  ends with the record updated at 00:01:00: the failed status and its error message are
  gone.
\<close>
theorem stale_record_overwrites_fresh_one:
  "staler (exampleJob 2 Pending (Some ''2024-01-01T00:01:00''))
          (exampleJob 2 Failed (Some ''2024-01-01T00:05:00'')\<lparr>error_message := Some ''x''\<rparr>) \<and>
   job_id (exampleJob 2 Pending (Some ''2024-01-01T00:01:00''))
     = job_id (exampleJob 2 Failed (Some ''2024-01-01T00:05:00'')\<lparr>error_message := Some ''x''\<rparr>) \<and>
   jobs (onPollResolved
           (exampleJob 2 Failed (Some ''2024-01-01T00:05:00'')\<lparr>error_message := Some ''x''\<rparr>)
           (initial\<lparr>jobs := [exampleJob 1 Completed None, exampleJob 2 Pending None]\<rparr>))
     = [exampleJob 1 Completed None,
        exampleJob 2 Failed (Some ''2024-01-01T00:05:00'')\<lparr>error_message := Some ''x''\<rparr>] \<and>
   jobs (refreshAll True
           (Inr [exampleJob 1 Completed None, exampleJob 2 Pending (Some ''2024-01-01T00:01:00'')])
           (onPollResolved
              (exampleJob 2 Failed (Some ''2024-01-01T00:05:00'')\<lparr>error_message := Some ''x''\<rparr>)
              (initial\<lparr>jobs := [exampleJob 1 Completed None, exampleJob 2 Pending None]\<rparr>)))
     = [exampleJob 1 Completed None, exampleJob 2 Pending (Some ''2024-01-01T00:01:00'')] \<and>
   jobs (refreshAll False
           (Inr [exampleJob 1 Completed None, exampleJob 2 Pending (Some ''2024-01-01T00:01:00'')])
           (onPollResolved
              (exampleJob 2 Failed (Some ''2024-01-01T00:05:00'')\<lparr>error_message := Some ''x''\<rparr>)
              (initial\<lparr>jobs := [exampleJob 1 Completed None, exampleJob 2 Pending None]\<rparr>)))
     = [exampleJob 2 Pending (Some ''2024-01-01T00:01:00'')] \<and>
   staler (exampleJob 2 Completed (Some ''2024-01-01T00:01:00''))
          (exampleJob 2 Failed (Some ''2024-01-01T00:05:00'')\<lparr>error_message := Some ''x''\<rparr>) \<and>
   completedOrFailed (exampleJob 2 Completed (Some ''2024-01-01T00:01:00'')) \<and>
   jobs (onPollResolved (exampleJob 2 Completed (Some ''2024-01-01T00:01:00''))
          (onPollResolved
              (exampleJob 2 Failed (Some ''2024-01-01T00:05:00'')\<lparr>error_message := Some ''x''\<rparr>)
              (initial\<lparr>jobs := [exampleJob 1 Completed None, exampleJob 2 Pending None]\<rparr>)))
     = [exampleJob 1 Completed None, exampleJob 2 Completed (Some ''2024-01-01T00:01:00'')]"
proof -
  let ?fresh = "exampleJob 2 Failed (Some ''2024-01-01T00:05:00'')\<lparr>error_message := Some ''x''\<rparr>"
  let ?st = "initial\<lparr>jobs := [exampleJob 1 Completed None, exampleJob 2 Pending None]\<rparr>"
  have s: "staler (exampleJob 2 Pending (Some ''2024-01-01T00:01:00'')) ?fresh"
    "staler (exampleJob 2 Completed (Some ''2024-01-01T00:01:00'')) ?fresh"
    by (simp_all add: staler_def exampleJob_def)
  have m1: "jobs (onPollResolved ?fresh ?st) = [exampleJob 1 Completed None, ?fresh]"
    by (simp add: onPollResolved_fields mergeJob_def exampleJob_def)
  have m2: "jobs (onPollResolved (exampleJob 2 Completed (Some ''2024-01-01T00:01:00''))
          (onPollResolved ?fresh ?st))
     = [exampleJob 1 Completed None, exampleJob 2 Completed (Some ''2024-01-01T00:01:00'')]"
    by (simp add: onPollResolved_fields mergeJob_def exampleJob_def)
  have t: "completedOrFailed (exampleJob 2 Completed (Some ''2024-01-01T00:01:00''))"
    by (simp add: completedOrFailed_def exampleJob_def)
  have f: "filter pendingOrRunning
      [exampleJob 1 Completed None, exampleJob 2 Pending (Some ''2024-01-01T00:01:00'')]
     = [exampleJob 2 Pending (Some ''2024-01-01T00:01:00'')]"
    by (simp add: pendingOrRunning_def exampleJob_def)
  have i: "job_id (exampleJob 2 Pending (Some ''2024-01-01T00:01:00'')) = job_id ?fresh"
    by (simp add: exampleJob_def)
  from s m1 m2 t i show ?thesis
    by (simp only: refreshAll_ok f) simp
qed

text \<open>
  C1, amended. The merge is last-write-wins by arrival, and \<^verbatim>\<open>updated_at\<close> is never
  compared. Merging a record after another record of the same id gives the list that merging
  it alone gives: where the list holds a record of that id, the merged record is in the list
  and every record of that id is the merged record; where it holds none, the list is
  unchanged. A successful refresh overwrites what a poll had merged: the full view stores
  the fetched list, the active view its pending and running jobs.
\<close>
theorem merge_last_arrival_wins:
  "(job_id a = job_id b \<longrightarrow>
      mergeJob b (mergeJob a js) = mergeJob b js \<and>
      jobs (onPollResolved b (onPollResolved a st)) = jobs (onPollResolved b st)) \<and>
   (job_id b \<in> job_id ` set js \<longrightarrow> b \<in> set (mergeJob b js)) \<and>
   (\<forall>j \<in> set (mergeJob b js). job_id j = job_id b \<longrightarrow> j = b) \<and>
   (job_id b \<notin> job_id ` set js \<longrightarrow> mergeJob b js = js \<and> b \<notin> set (mergeJob b js)) \<and>
   (job_id a = job_id b \<and> job_id b \<notin> job_id ` set js \<longrightarrow>
      mergeJob b (mergeJob a js) = js \<and> a \<notin> set js \<and> b \<notin> set js) \<and>
   jobs (refreshAll True (Inr allJobs) (onPollResolved b st)) = allJobs \<and>
   jobs (refreshAll False (Inr allJobs) (onPollResolved b st)) = filter pendingOrRunning allJobs"
proof (intro conjI impI ballI)
  fix j assume "j \<in> set (mergeJob b js)" "job_id j = job_id b"
  then show "j = b" by (rule mergeJob_same_id)
next
  assume "job_id a = job_id b \<and> job_id b \<notin> job_id ` set js"
  then have s: "job_id a = job_id b" and n: "job_id b \<notin> job_id ` set js" by simp_all
  from s n show "mergeJob b (mergeJob a js) = js" by (simp add: mergeJob_twice mergeJob_absent)
  from n show "b \<notin> set js" by auto
  from n s have "job_id a \<notin> job_id ` set js" by simp
  then show "a \<notin> set js" by auto
next
  assume n: "job_id b \<notin> job_id ` set js"
  then show "mergeJob b js = js" by (rule mergeJob_absent)
  from n have "b \<notin> set js" by auto
  with n show "b \<notin> set (mergeJob b js)" by (simp add: mergeJob_absent)
qed (simp_all add: mergeJob_twice onPollResolved_twice mergeJob_present refreshAll_ok)

theorem merge_last_arrival_wins_witness:
  "mergeJob (exampleJob 2 Completed (Some ''2024-01-01T00:01:00''))
      (mergeJob (exampleJob 2 Failed (Some ''2024-01-01T00:05:00''))
         [exampleJob 1 Completed None, exampleJob 2 Pending None])
     = [exampleJob 1 Completed None, exampleJob 2 Completed (Some ''2024-01-01T00:01:00'')] \<and>
   exampleJob 2 Completed (Some ''2024-01-01T00:01:00'')
     \<in> set (mergeJob (exampleJob 2 Completed (Some ''2024-01-01T00:01:00''))
               [exampleJob 1 Completed None, exampleJob 2 Pending None]) \<and>
   mergeJob (exampleJob 2 Completed (Some ''2024-01-01T00:01:00''))
         [exampleJob 1 Completed None, exampleJob 2 Pending None] ! 1
     = exampleJob 2 Completed (Some ''2024-01-01T00:01:00'') \<and>
   mergeJob (exampleJob 2 Completed (Some ''2024-01-01T00:01:00'')) [exampleJob 1 Completed None]
     = [exampleJob 1 Completed None] \<and>
   mergeJob (exampleJob 2 Completed (Some ''2024-01-01T00:01:00''))
      (mergeJob (exampleJob 2 Failed (Some ''2024-01-01T00:05:00'')) [exampleJob 1 Completed None])
     = [exampleJob 1 Completed None]"
proof -
  let ?a = "exampleJob 2 Failed (Some ''2024-01-01T00:05:00'')"
  let ?b = "exampleJob 2 Completed (Some ''2024-01-01T00:01:00'')"
  let ?js = "[exampleJob 1 Completed None, exampleJob 2 Pending None]"
  note t = merge_last_arrival_wins [of ?a ?b ?js]
  note t' = merge_last_arrival_wins [of ?a ?b "[exampleJob 1 Completed None]"]
  have "job_id ?a = job_id ?b" by (simp add: exampleJob_def)
  with t have "mergeJob ?b (mergeJob ?a ?js) = mergeJob ?b ?js" by blast
  then have one: "mergeJob ?b (mergeJob ?a ?js) = [exampleJob 1 Completed None, ?b]"
    by (simp add: mergeJob_def exampleJob_def)
  have "job_id ?b \<in> job_id ` set ?js" by (simp add: exampleJob_def)
  with t have two: "?b \<in> set (mergeJob ?b ?js)" by blast
  have "mergeJob ?b ?js ! 1 \<in> set (mergeJob ?b ?js)" by (simp add: mergeJob_length)
  moreover have "job_id (mergeJob ?b ?js ! 1) = job_id ?b"
    by (simp add: mergeJob_def exampleJob_def)
  ultimately have three: "mergeJob ?b ?js ! 1 = ?b" using t by blast
  have n: "job_id ?b \<notin> job_id ` set [exampleJob 1 Completed None]" by (simp add: exampleJob_def)
  with t' have four: "mergeJob ?b [exampleJob 1 Completed None] = [exampleJob 1 Completed None]"
    by blast
  from t' n \<open>job_id ?a = job_id ?b\<close>
  have five: "mergeJob ?b (mergeJob ?a [exampleJob 1 Completed None]) = [exampleJob 1 Completed None]"
    by blast
  from one two three four five show ?thesis by blast
qed

end
